theory Spec2Isabelle
  imports Main "HOL-Library.Sublist"
begin

section \<open>JavaScript values as the route handlers see them\<close>

text \<open>
  The handlers of \<^verbatim>\<open>src/app/api/mcp/route.ts\<close> receive \<^verbatim>\<open>Record<string, any>\<close>:
  whatever \<^verbatim>\<open>request.json()\<close> parsed. A value is therefore dynamically typed.
  An object is the list of its own properties in insertion order (a parsed object has
  distinct keys). Numbers are modelled on the integers, the type the backlog format gives to
  counts and hours, with \<open>JNaN\<close> beside them; a JavaScript number is an IEEE double, on
  which integer addition is exact while magnitudes stay below \<open>2^53\<close>.
\<close>

datatype jsval =
    JUndefined
  | JNull
  | JBool bool
  | JNum int
  | JNaN
  | JStr string
  | JArr "jsval list"
  | JObj "(string \<times> jsval) list"

text \<open>
  What a \<^verbatim>\<open>TypeError\<close> of the runtime was raised for: reading a property of
  \<^verbatim>\<open>undefined\<close> or \<^verbatim>\<open>null\<close>, or calling a property that is not a function.
  The wording of its message belongs to the engine.
\<close>

datatype fault =
    ReadOfNullish jsval string
  | NotAFunction string

datatype js_error =
    Error string
  | TypeError fault
  | SyntaxError string


definition bnd :: "'e + 'a \<Rightarrow> ('a \<Rightarrow> 'e + 'b) \<Rightarrow> 'e + 'b" where
  "bnd m f = (case m of Inl e \<Rightarrow> Inl e | Inr x \<Rightarrow> f x)"

fun nullish :: "jsval \<Rightarrow> bool" where
  "nullish JUndefined = True"
| "nullish JNull = True"
| "nullish _ = False"

text \<open>Truthiness, as \<^verbatim>\<open>!x\<close> and \<^verbatim>\<open>x || y\<close> test it.\<close>

fun truthy :: "jsval \<Rightarrow> bool" where
  "truthy JUndefined = False"
| "truthy JNull = False"
| "truthy (JBool b) = b"
| "truthy (JNum n) = (n \<noteq> 0)"
| "truthy JNaN = False"
| "truthy (JStr s) = (s \<noteq> [])"
| "truthy (JArr _) = True"
| "truthy (JObj _) = True"

definition js_or :: "jsval \<Rightarrow> jsval \<Rightarrow> jsval" where
  "js_or a b = (if truthy a then a else b)"

fun isArray :: "jsval \<Rightarrow> bool" where
  "isArray (JArr _) = True"
| "isArray _ = False"

text \<open>\<^verbatim>\<open>typeof v === 'object'\<close>: objects, arrays and \<^verbatim>\<open>null\<close>.\<close>

fun typeof_object :: "jsval \<Rightarrow> bool" where
  "typeof_object JNull = True"
| "typeof_object (JArr _) = True"
| "typeof_object (JObj _) = True"
| "typeof_object _ = False"

text \<open>
  \<open>getprop v k\<close> is \<^verbatim>\<open>v.k\<close> on a value that is neither \<^verbatim>\<open>undefined\<close> nor
  \<^verbatim>\<open>null\<close>, for the property names the handlers read (none of them an array index or
  a member of \<^verbatim>\<open>Object.prototype\<close>): an own property of an object, the length of an
  array or of a string, and \<^verbatim>\<open>undefined\<close> otherwise. \<open>get\<close> is the plain read
  \<^verbatim>\<open>v.k\<close>, which throws on \<^verbatim>\<open>undefined\<close> and \<^verbatim>\<open>null\<close>; \<open>opt_get\<close>
  is the optional chain \<^verbatim>\<open>v?.k\<close>.
\<close>

fun getprop :: "jsval \<Rightarrow> string \<Rightarrow> jsval" where
  "getprop (JObj kvs) k = (case map_of kvs k of None \<Rightarrow> JUndefined | Some v \<Rightarrow> v)"
| "getprop (JArr xs) k = (if k = ''length'' then JNum (int (length xs)) else JUndefined)"
| "getprop (JStr s) k = (if k = ''length'' then JNum (int (length s)) else JUndefined)"
| "getprop _ k = JUndefined"

definition get :: "jsval \<Rightarrow> string \<Rightarrow> js_error + jsval" where
  "get v k = (if nullish v then Inl (TypeError (ReadOfNullish v k)) else Inr (getprop v k))"

definition opt_get :: "jsval \<Rightarrow> string \<Rightarrow> jsval" where
  "opt_get v k = (if nullish v then JUndefined else getprop v k)"

subsection \<open>String conversion and addition\<close>

fun digit :: "nat \<Rightarrow> char" where
  "digit n = char_of (48 + n)"

fun show_nat :: "nat \<Rightarrow> string" where
  "show_nat n = (if n < 10 then [digit n] else show_nat (n div 10) @ [digit (n mod 10)])"

definition show_int :: "int \<Rightarrow> string" where
  "show_int i = (if i < 0 then CHR ''-'' # show_nat (nat (- i)) else show_nat (nat i))"

fun join :: "string \<Rightarrow> string list \<Rightarrow> string" where
  "join sep [] = []"
| "join sep [s] = s"
| "join sep (s # t # ss) = s @ sep @ join sep (t # ss)"

text \<open>
  \<^verbatim>\<open>String(v)\<close>, the conversion of a template literal and of \<^verbatim>\<open>new Error(v)\<close>.
  An array joins its elements with commas, \<^verbatim>\<open>null\<close> and \<^verbatim>\<open>undefined\<close> elements
  as the empty string.
\<close>

fun toStr :: "jsval \<Rightarrow> string" where
  "toStr JUndefined = ''undefined''"
| "toStr JNull = ''null''"
| "toStr (JBool b) = (if b then ''true'' else ''false'')"
| "toStr (JNum n) = show_int n"
| "toStr JNaN = ''NaN''"
| "toStr (JStr s) = s"
| "toStr (JArr xs) = join '','' (map (\<lambda>x. if nullish x then [] else toStr x) xs)"
| "toStr (JObj kvs) = ''[object Object]''"

fun toPrimitive :: "jsval \<Rightarrow> jsval" where
  "toPrimitive (JArr xs) = JStr (toStr (JArr xs))"
| "toPrimitive (JObj kvs) = JStr (toStr (JObj kvs))"
| "toPrimitive v = v"

fun isStr :: "jsval \<Rightarrow> bool" where
  "isStr (JStr _) = True"
| "isStr _ = False"

text \<open>\<^verbatim>\<open>Number(v)\<close> on the primitives that are not strings.\<close>

fun toNumber :: "jsval \<Rightarrow> int option" where
  "toNumber JNull = Some 0"
| "toNumber (JBool b) = Some (if b then 1 else 0)"
| "toNumber (JNum n) = Some n"
| "toNumber _ = None"

text \<open>
  The operator \<^verbatim>\<open>+\<close>: both operands are made primitive; if either is then a string
  the result is the concatenation of their strings, otherwise the sum of their numbers
  (\<^verbatim>\<open>NaN\<close> if either is not a number).
\<close>

definition js_add :: "jsval \<Rightarrow> jsval \<Rightarrow> jsval" where
  "js_add a b =
     (let pa = toPrimitive a; pb = toPrimitive b in
      if isStr pa \<or> isStr pb then JStr (toStr pa @ toStr pb)
      else (case (toNumber pa, toNumber pb) of
              (Some m, Some n) \<Rightarrow> JNum (m + n)
            | _ \<Rightarrow> JNaN))"

subsection \<open>Array methods\<close>

text \<open>
  \<^verbatim>\<open>xs.reduce(f, init)\<close> and \<^verbatim>\<open>xs.map(f)\<close> with a callback that may throw: the
  first exception ends the traversal.
\<close>

fun reduce :: "(jsval \<Rightarrow> jsval \<Rightarrow> js_error + jsval) \<Rightarrow> jsval \<Rightarrow> jsval list \<Rightarrow> js_error + jsval" where
  "reduce f acc [] = Inr acc"
| "reduce f acc (x # xs) = bnd (f acc x) (\<lambda>acc'. reduce f acc' xs)"

fun map_e :: "(jsval \<Rightarrow> js_error + jsval) \<Rightarrow> jsval list \<Rightarrow> js_error + jsval list" where
  "map_e f [] = Inr []"
| "map_e f (x # xs) = bnd (f x) (\<lambda>y. bnd (map_e f xs) (\<lambda>ys. Inr (y # ys)))"

text \<open>
  \<^verbatim>\<open>v?.reduce(f, init)\<close> and \<^verbatim>\<open>v?.map(f)\<close>: \<^verbatim>\<open>undefined\<close> when \<open>v\<close> is
  \<^verbatim>\<open>undefined\<close> or \<^verbatim>\<open>null\<close>, the method on an array, and a \<^verbatim>\<open>TypeError\<close> on
  any other value, which has no such method to call.
\<close>

fun opt_reduce :: "jsval \<Rightarrow> (jsval \<Rightarrow> jsval \<Rightarrow> js_error + jsval) \<Rightarrow> jsval \<Rightarrow> js_error + jsval" where
  "opt_reduce JUndefined f init = Inr JUndefined"
| "opt_reduce JNull f init = Inr JUndefined"
| "opt_reduce (JArr xs) f init = reduce f init xs"
| "opt_reduce _ f init = Inl (TypeError (NotAFunction ''reduce''))"

fun opt_map :: "jsval \<Rightarrow> (jsval \<Rightarrow> js_error + jsval) \<Rightarrow> js_error + jsval" where
  "opt_map JUndefined f = Inr JUndefined"
| "opt_map JNull f = Inr JUndefined"
| "opt_map (JArr xs) f = bnd (map_e f xs) (\<lambda>ys. Inr (JArr ys))"
| "opt_map _ f = Inl (TypeError (NotAFunction ''map''))"

section \<open>The tool handlers\<close>

subsection \<open>get\_backlog\_summary\<close>

text \<open>
  The callbacks of \<^verbatim>\<open>handleGetBacklogSummary\<close>, in the order of the source:
  \<^verbatim>\<open>sum + (epic.stories?.length || 0)\<close>,
  \<^verbatim>\<open>storySum + (story.estimated_hours || 0)\<close>,
  \<^verbatim>\<open>sum + (epic.stories?.reduce(..., 0) || 0)\<close> and the breakdown entry of an epic.
\<close>

definition count_stories :: "jsval \<Rightarrow> jsval \<Rightarrow> js_error + jsval" where
  "count_stories acc epic =
     bnd (get epic ''stories'') (\<lambda>stories.
       Inr (js_add acc (js_or (opt_get stories ''length'') (JNum 0))))"

definition add_story_hours :: "jsval \<Rightarrow> jsval \<Rightarrow> js_error + jsval" where
  "add_story_hours storySum story =
     bnd (get story ''estimated_hours'') (\<lambda>h.
       Inr (js_add storySum (js_or h (JNum 0))))"

definition story_hours :: "jsval \<Rightarrow> js_error + jsval" where
  "story_hours stories =
     bnd (opt_reduce stories add_story_hours (JNum 0)) (\<lambda>r. Inr (js_or r (JNum 0)))"

definition add_epic_hours :: "jsval \<Rightarrow> jsval \<Rightarrow> js_error + jsval" where
  "add_epic_hours acc epic =
     bnd (get epic ''stories'') (\<lambda>stories.
     bnd (story_hours stories) (\<lambda>h.
       Inr (js_add acc h)))"

definition breakdown_entry :: "jsval \<Rightarrow> js_error + jsval" where
  "breakdown_entry epic =
     bnd (get epic ''id'') (\<lambda>eid.
     bnd (get epic ''title'') (\<lambda>title.
     bnd (get epic ''stories'') (\<lambda>stories.
     bnd (story_hours stories) (\<lambda>h.
       Inr (JObj [(''id'', eid),
                  (''title'', title),
                  (''story_count'', js_or (opt_get stories ''length'') (JNum 0)),
                  (''total_hours'', h)])))))"

text \<open>
  The object \<^verbatim>\<open>summary\<close> of the handler, for a backlog that passed the guard; its
  properties are evaluated in the order written.
\<close>

definition summary :: "jsval \<Rightarrow> js_error + jsval" where
  "summary backlog =
     (let project_name = js_or (opt_get (getprop backlog ''project'') ''name'') (JStr ''Unknown'');
          epics = getprop backlog ''epics'';
          total_epics = js_or (opt_get epics ''length'') (JNum 0)
      in
      bnd (opt_reduce epics count_stories (JNum 0)) (\<lambda>ts.
      bnd (opt_reduce epics add_epic_hours (JNum 0)) (\<lambda>th.
      bnd (opt_map epics breakdown_entry) (\<lambda>eb.
        Inr (JObj [(''project_name'', project_name),
                   (''total_epics'', total_epics),
                   (''total_stories'', js_or ts (JNum 0)),
                   (''total_estimated_hours'', js_or th (JNum 0)),
                   (''epics_breakdown'', js_or eb (JArr []))])))))"

text \<open>
  A tool result is \<^verbatim>\<open>{ content: [{ type: 'text', text: JSON.stringify(v, null, 2) }] }\<close>.
  The text is represented by the value \<open>v\<close> it serialises.
\<close>

datatype content = TextJson jsval

type_synonym tool_result = "content list"

text \<open>
  Destructuring \<^verbatim>\<open>const { backlog } = args\<close> throws on \<^verbatim>\<open>undefined\<close> and
  \<^verbatim>\<open>null\<close> like a property read.
\<close>

definition handleGetBacklogSummary :: "jsval \<Rightarrow> js_error + tool_result" where
  "handleGetBacklogSummary args =
     bnd (get args ''backlog'') (\<lambda>backlog.
       if \<not> truthy backlog \<or> \<not> typeof_object backlog
       then Inl (Error ''backlog is required and must be an object'')
       else bnd (summary backlog) (\<lambda>s. Inr [TextJson s]))"

subsection \<open>generate\_backlog\<close>

text \<open>
  What the module reads from its surroundings: the environment variable
  \<^verbatim>\<open>STORYCRAFTER_SERVICE_URL\<close>, and the engine's wording of a \<^verbatim>\<open>TypeError\<close>.
\<close>

record runtime =
  env_STORYCRAFTER_SERVICE_URL :: "string option"
  fault_text :: "fault \<Rightarrow> string"

definition STORYCRAFTER_SERVICE_URL :: "runtime \<Rightarrow> string" where
  "STORYCRAFTER_SERVICE_URL rt =
     (case env_STORYCRAFTER_SERVICE_URL rt of
        None \<Rightarrow> ''https://storycrafter-service.vercel.app''
      | Some u \<Rightarrow> if u = [] then ''https://storycrafter-service.vercel.app'' else u)"

fun error_message :: "runtime \<Rightarrow> js_error \<Rightarrow> string" where
  "error_message rt (Error m) = m"
| "error_message rt (TypeError f) = fault_text rt f"
| "error_message rt (SyntaxError m) = m"

text \<open>
  The ways \<^verbatim>\<open>axios.post\<close> ends: it resolves with the data of a 2xx response; or it
  rejects with an error that carries \<^verbatim>\<open>error.response\<close> (the service answered
  outside 2xx; its data and status text), with one that carries only
  \<^verbatim>\<open>error.request\<close> (nothing came back, which includes the 300000 ms timeout), or
  with one that carries neither (the request could not be set up; its message).
\<close>

datatype axios_outcome =
    Resolved jsval
  | Rejected_response jsval string
  | Rejected_request
  | Rejected_setup string

text \<open>What the \<^verbatim>\<open>catch\<close> clause of \<^verbatim>\<open>handleGenerateBacklog\<close> can receive.\<close>

datatype caught =
    WithResponse jsval string
  | WithRequest
  | Plain js_error

text \<open>
  The observable steps of a request, in order: a tool handler is entered, the service is
  called (URL and JSON body), \<^verbatim>\<open>console.error\<close> logs an error.
\<close>

datatype event =
    HandlerInvoked string
  | BackendCall string jsval
  | ConsoleError js_error

type_synonym service = "string \<Rightarrow> jsval \<Rightarrow> axios_outcome"

text \<open>The body of the \<^verbatim>\<open>try\<close> block once \<^verbatim>\<open>axios.post\<close> has ended.\<close>

definition generate_try :: "axios_outcome \<Rightarrow> caught + tool_result" where
  "generate_try outcome =
     (case outcome of
        Rejected_response d st \<Rightarrow> Inl (WithResponse d st)
      | Rejected_request \<Rightarrow> Inl WithRequest
      | Rejected_setup m \<Rightarrow> Inl (Plain (Error m))
      | Resolved data \<Rightarrow>
          (case get data ''success'' of
             Inl e \<Rightarrow> Inl (Plain e)
           | Inr success \<Rightarrow>
               if \<not> truthy success
               then Inl (Plain (Error (toStr (js_or (getprop data ''error'')
                                                    (JStr ''Backlog generation failed'')))))
               else
                 (let metadata = getprop data ''metadata'' in
                  case get metadata ''total_epics'' of
                    Inl e \<Rightarrow> Inl (Plain e)
                  | Inr total_epics \<Rightarrow>
                      Inr [TextJson (JObj
                        [(''success'', JBool True),
                         (''backlog'', getprop data ''backlog''),
                         (''summary'', JObj
                            [(''total_epics'', total_epics),
                             (''total_stories'', getprop metadata ''total_stories''),
                             (''total_estimated_hours'', getprop metadata ''total_estimated_hours''),
                             (''generated_at'', getprop metadata ''generated_at'')])])])))"

definition generate_catch :: "runtime \<Rightarrow> caught \<Rightarrow> js_error" where
  "generate_catch rt c =
     (case c of
        WithResponse d st \<Rightarrow>
          Error (''StoryCrafter service error: '' @ toStr (js_or (opt_get d ''detail'') (JStr st)))
      | WithRequest \<Rightarrow>
          Error (''StoryCrafter service unavailable: '' @ STORYCRAFTER_SERVICE_URL rt)
      | Plain e \<Rightarrow>
          Error (''Request error: '' @ error_message rt e))"

definition handleGenerateBacklog ::
  "runtime \<Rightarrow> service \<Rightarrow> jsval \<Rightarrow> (js_error + tool_result) \<times> event list" where
  "handleGenerateBacklog rt post args =
     (if nullish args then (Inl (TypeError (ReadOfNullish args ''consensus_messages'')), [])
      else
        let consensus_messages = getprop args ''consensus_messages'';
            project_metadata = getprop args ''project_metadata'';
            use_full_context = (if getprop args ''use_full_context'' = JUndefined then JBool True
                                else getprop args ''use_full_context'')
        in
        if \<not> truthy consensus_messages \<or> \<not> isArray consensus_messages
        then (Inl (Error ''consensus_messages is required and must be an array''), [])
        else if getprop consensus_messages ''length'' = JNum 0
        then (Inl (Error ''consensus_messages cannot be empty''), [])
        else
          let url = STORYCRAFTER_SERVICE_URL rt @ ''/generate-backlog'';
              body = JObj [(''consensus_messages'', consensus_messages),
                           (''project_metadata'', project_metadata),
                           (''use_full_context'', use_full_context)]
          in
          ((case generate_try (post url body) of
              Inl c \<Rightarrow> Inl (generate_catch rt c)
            | Inr r \<Rightarrow> Inr r),
           [BackendCall url body]))"

section \<open>The MCP request handler\<close>

definition consensus_messages_schema :: jsval where
  "consensus_messages_schema = JObj
     [(''type'', JStr ''array''),
      (''description'', JStr ''List of messages from 3-agent consensus (system, alex, blake, casey)''),
      (''items'', JObj
         [(''type'', JStr ''object''),
          (''properties'', JObj
             [(''role'', JObj
                 [(''type'', JStr ''string''),
                  (''enum'', JArr [JStr ''system'', JStr ''alex'', JStr ''blake'', JStr ''casey'']),
                  (''description'', JStr ''Message role: system (project context), alex (product manager), blake (technical architect), casey (project manager)'')]),
              (''content'', JObj
                 [(''type'', JStr ''string''),
                  (''description'', JStr ''Message content'')])]),
          (''required'', JArr [JStr ''role'', JStr ''content''])])]"

definition project_metadata_schema :: jsval where
  "project_metadata_schema = JObj
     [(''type'', JStr ''object''),
      (''description'', JStr ''Optional project metadata''),
      (''properties'', JObj
         [(''project_name'', JObj [(''type'', JStr ''string'')]),
          (''project_description'', JObj [(''type'', JStr ''string'')]),
          (''target_users'', JObj [(''type'', JStr ''string'')]),
          (''platform'', JObj [(''type'', JStr ''string'')]),
          (''timeline'', JObj [(''type'', JStr ''string'')]),
          (''team_size'', JObj [(''type'', JStr ''string'')])])]"

definition MCP_TOOLS :: "jsval list" where
  "MCP_TOOLS =
     [JObj
        [(''name'', JStr ''generate_backlog''),
         (''description'', JStr ''Generate complete project backlog from VISHKAR 3-agent consensus discussion. Returns 6-8 epics with 20-40 detailed user stories, acceptance criteria, technical tasks, story points, and time estimates.''),
         (''inputSchema'', JObj
            [(''type'', JStr ''object''),
             (''properties'', JObj
                [(''consensus_messages'', consensus_messages_schema),
                 (''project_metadata'', project_metadata_schema),
                 (''use_full_context'', JObj
                    [(''type'', JStr ''boolean''),
                     (''description'', JStr ''Use full context mode (recommended, default: true)''),
                     (''default'', JBool True)])]),
             (''required'', JArr [JStr ''consensus_messages''])])],
      JObj
        [(''name'', JStr ''get_backlog_summary''),
         (''description'', JStr ''Get summary statistics from a generated backlog (epic count, story count, total hours, etc.)''),
         (''inputSchema'', JObj
            [(''type'', JStr ''object''),
             (''properties'', JObj
                [(''backlog'', JObj
                    [(''type'', JStr ''object''),
                     (''description'', JStr ''Previously generated backlog object'')])]),
             (''required'', JArr [JStr ''backlog''])])]]"

text \<open>The names the server offers: \<^verbatim>\<open>MCP_TOOLS.map(t => t.name)\<close>.\<close>

definition tool_names :: "jsval list" where
  "tool_names = map (\<lambda>t. getprop t ''name'') MCP_TOOLS"

text \<open>
  \<^verbatim>\<open>NextResponse.json(body, { status })\<close>. The body is a JSON value, or a tool result
  (whose text holds a serialised value).
\<close>

datatype payload = Json jsval | ToolResult tool_result

record response =
  status :: nat
  payload :: payload





text \<open>The health check \<^verbatim>\<open>GET\<close>.\<close>

definition GET :: "runtime \<Rightarrow> response" where
  "GET rt =
     \<lparr>status = 200,
      payload = Json (JObj
        [(''name'', JStr ''StoryCrafter MCP''),
         (''version'', JStr ''1.0.0''),
         (''description'', JStr ''AI-powered backlog generator for VISHKAR consensus''),
         (''tools'', JArr tool_names),
         (''service_url'', JStr (STORYCRAFTER_SERVICE_URL rt)),
         (''status'', JStr ''healthy'')])\<rparr>"

section \<open>The backlog format\<close>















section \<open>The regeneration engine of the service\<close>

text \<open>
  Modelled from the spec: the priority of an epic (section 3). The service that generates
  and regenerates epics and stories is not among the sources, which hold the MCP wrapper
  that calls it.
\<close>

datatype epic_priority = High | Medium | Low

text \<open>Modelled from the spec: the category of an epic (section 3).\<close>

datatype category = MVP | Post_MVP | Technical

text \<open>Modelled from the spec: the priority of a story (section 3).\<close>

datatype story_priority = P0 | P1 | P2 | P3

text \<open>Modelled from the spec: the layer of a story (section 3).\<close>

datatype layer = fullstack | backend | frontend | database | infrastructure

text \<open>
  Modelled from the spec: the record \<open>Story\<close> of section 3, with the
  \<open>regeneration_notes\<close> field that section 4.7 appends.
\<close>

record story =
  story_id :: string
  story_title :: string
  story_description :: string
  acceptance_criteria :: "string list"
  technical_tasks :: "string list"
  story_priority :: story_priority
  story_points :: nat
  estimated_hours :: nat
  dependencies :: "string list"
  tags :: "string list"
  layer :: layer
  story_regeneration_notes :: "string option"

text \<open>
  Modelled from the spec: the record \<open>Epic\<close> of section 3, with the
  \<open>regeneration_notes\<close> field that section 4.7 appends.
\<close>

record epic =
  epic_id :: string
  epic_title :: string
  epic_description :: string
  epic_priority :: epic_priority
  category :: category
  story_count_target :: nat
  stories :: "story list"
  epic_regeneration_notes :: "string option"

text \<open>Modelled from the spec: the error taxonomy of section 7.\<close>

datatype generation_error =
    EmptyTranscriptError
  | BackendUnavailableError
  | BackendRejectedError
  | UnparsableResponseError string string
  | EmptyBatchError
  | GenerationFailedError generation_error

text \<open>
  Modelled from the spec: what the regeneration engine is given (sections 4.2, 4.3 and 4.7):
  the planning and the expansion backend (\<open>complete\<close>, from a prompt to raw text or a
  failure), the response extractor for a single epic and a single story, the prompt built
  from the original record, the feedback and the transcript, and the generic note.
\<close>

record pipeline =
  planning :: "string \<Rightarrow> generation_error + string"
  expansion :: "string \<Rightarrow> generation_error + string"
  extract_epic :: "string \<Rightarrow> generation_error + epic"
  extract_story :: "string \<Rightarrow> generation_error + story"
  epic_prompt :: "epic \<Rightarrow> string \<Rightarrow> string \<Rightarrow> string"
  story_prompt :: "epic \<Rightarrow> story \<Rightarrow> string \<Rightarrow> string \<Rightarrow> string"
  generic_note :: string

text \<open>
  Modelled from the spec: the expansion backend with the planning backend substituted when
  it fails as unavailable or rejected (sections 4.2 and 4.5).
\<close>

definition expansion_with_fallback :: "pipeline \<Rightarrow> string \<Rightarrow> generation_error + string" where
  "expansion_with_fallback p prompt =
     (case expansion p prompt of
        Inl BackendUnavailableError \<Rightarrow> planning p prompt
      | Inl BackendRejectedError \<Rightarrow> planning p prompt
      | r \<Rightarrow> r)"

text \<open>
  Modelled from the spec: \<open>regenerate_epic\<close> (section 4.7). The backend is invoked on the
  regeneration prompt, a single record is extracted, the original id is reinstated whatever
  id the output carries, and the regeneration notes are the backend's explanation if
  present, otherwise the generic note. A failure is wrapped in \<open>GenerationFailedError\<close>.
\<close>

definition regenerate_epic :: "pipeline \<Rightarrow> epic \<Rightarrow> string \<Rightarrow> string \<Rightarrow> generation_error + epic" where
  "regenerate_epic p e feedback transcript_text =
     (case planning p (epic_prompt p e feedback transcript_text) of
        Inl err \<Rightarrow> Inl (GenerationFailedError err)
      | Inr raw \<Rightarrow>
          (case extract_epic p raw of
             Inl err \<Rightarrow> Inl (GenerationFailedError err)
           | Inr out \<Rightarrow>
               Inr (out\<lparr>epic_id := epic_id e,
                         epic_regeneration_notes :=
                           Some (case epic_regeneration_notes out of
                                   Some n \<Rightarrow> n | None \<Rightarrow> generic_note p)\<rparr>)))"

text \<open>Modelled from the spec: \<open>regenerate_story\<close> (section 4.7), likewise.\<close>

definition regenerate_story ::
  "pipeline \<Rightarrow> epic \<Rightarrow> story \<Rightarrow> string \<Rightarrow> string \<Rightarrow> generation_error + story" where
  "regenerate_story p e s feedback transcript_text =
     (case expansion_with_fallback p (story_prompt p e s feedback transcript_text) of
        Inl err \<Rightarrow> Inl (GenerationFailedError err)
      | Inr raw \<Rightarrow>
          (case extract_story p raw of
             Inl err \<Rightarrow> Inl (GenerationFailedError err)
           | Inr out \<Rightarrow>
               Inr (out\<lparr>story_id := story_id s,
                         story_regeneration_notes :=
                           Some (case story_regeneration_notes out of
                                   Some n \<Rightarrow> n | None \<Rightarrow> generic_note p)\<rparr>)))"

section \<open>The summary handler on a store\<close>

text \<open>
  Whether the handler writes to its argument cannot be said of values alone. Here the
  objects live in a store: a value is a primitive or a reference to a cell, and a cell
  holds the elements of an array or the properties of an object. An address is the index
  of a cell; allocation appends a cell.
\<close>

datatype sval =
    SUndefined
  | SNull
  | SBool bool
  | SNum int
  | SNaN
  | SStr string
  | SRef nat

datatype cell =
    CArr "sval list"
  | CObj "(string \<times> sval) list"

type_synonym store = "cell list"

text \<open>
  A computation takes the store and returns a result or an exception together with the
  store it leaves behind. A step reads the store, allocates a cell (an array or object
  literal, the result of \<^verbatim>\<open>map\<close>), or assigns to a cell. The handler is translated
  statement by statement; the source has no assignment to a property or an element, so
  \<open>assign\<close> occurs in none of its steps.
\<close>

type_synonym 'a comp = "store \<Rightarrow> (js_error + 'a) \<times> store"

definition ret :: "'a \<Rightarrow> 'a comp" where
  "ret x = (\<lambda>h. (Inr x, h))"

definition throw :: "js_error \<Rightarrow> 'a comp" where
  "throw e = (\<lambda>h. (Inl e, h))"

definition bnd_st :: "'a comp \<Rightarrow> ('a \<Rightarrow> 'b comp) \<Rightarrow> 'b comp" where
  "bnd_st m f = (\<lambda>h. case m h of (Inl e, h') \<Rightarrow> (Inl e, h') | (Inr x, h') \<Rightarrow> f x h')"

definition alloc :: "cell \<Rightarrow> sval comp" where
  "alloc c = (\<lambda>h. (Inr (SRef (length h)), h @ [c]))"

definition reading :: "(store \<Rightarrow> 'a) \<Rightarrow> 'a comp" where
  "reading f = (\<lambda>h. (Inr (f h), h))"

definition assign :: "nat \<Rightarrow> cell \<Rightarrow> unit comp" where
  "assign a c = (\<lambda>h. (Inr (), h[a := c]))"

text \<open>The operations on values, as before, with references read through the store.\<close>

fun nullish_st :: "sval \<Rightarrow> bool" where
  "nullish_st SUndefined = True"
| "nullish_st SNull = True"
| "nullish_st _ = False"

fun truthy_st :: "sval \<Rightarrow> bool" where
  "truthy_st SUndefined = False"
| "truthy_st SNull = False"
| "truthy_st (SBool b) = b"
| "truthy_st (SNum n) = (n \<noteq> 0)"
| "truthy_st SNaN = False"
| "truthy_st (SStr s) = (s \<noteq> [])"
| "truthy_st (SRef _) = True"

fun typeof_object_st :: "sval \<Rightarrow> bool" where
  "typeof_object_st SNull = True"
| "typeof_object_st (SRef _) = True"
| "typeof_object_st _ = False"

fun primitive :: "sval \<Rightarrow> jsval" where
  "primitive SUndefined = JUndefined"
| "primitive SNull = JNull"
| "primitive (SBool b) = JBool b"
| "primitive (SNum n) = JNum n"
| "primitive SNaN = JNaN"
| "primitive (SStr s) = JStr s"
| "primitive (SRef _) = JUndefined"

definition cell_at :: "store \<Rightarrow> nat \<Rightarrow> cell option" where
  "cell_at h a = (if a < length h then Some (h ! a) else None)"

fun getprop_st :: "store \<Rightarrow> sval \<Rightarrow> string \<Rightarrow> sval" where
  "getprop_st h (SRef a) k =
     (case cell_at h a of
        Some (CObj kvs) \<Rightarrow> (case map_of kvs k of None \<Rightarrow> SUndefined | Some v \<Rightarrow> v)
      | Some (CArr xs) \<Rightarrow> (if k = ''length'' then SNum (int (length xs)) else SUndefined)
      | None \<Rightarrow> SUndefined)"
| "getprop_st h (SStr s) k = (if k = ''length'' then SNum (int (length s)) else SUndefined)"
| "getprop_st h _ k = SUndefined"

definition get_st :: "sval \<Rightarrow> string \<Rightarrow> sval comp" where
  "get_st v k =
     (if nullish_st v then throw (TypeError (ReadOfNullish (primitive v) k))
      else reading (\<lambda>h. getprop_st h v k))"

definition opt_get_st :: "sval \<Rightarrow> string \<Rightarrow> sval comp" where
  "opt_get_st v k = (if nullish_st v then ret SUndefined else reading (\<lambda>h. getprop_st h v k))"

definition js_or_st :: "sval \<Rightarrow> sval comp \<Rightarrow> sval comp" where
  "js_or_st a b = (if truthy_st a then ret a else b)"

text \<open>
  \<^verbatim>\<open>String(v)\<close> follows the references of nested arrays. The first argument bounds the
  depth it follows them to: a store built by parsing has no cycle, and a value in it is
  nested no deeper than the store has cells.
\<close>

fun toStr_st :: "nat \<Rightarrow> store \<Rightarrow> sval \<Rightarrow> string" where
  "toStr_st n h (SRef a) =
     (case cell_at h a of
        Some (CObj kvs) \<Rightarrow> ''[object Object]''
      | Some (CArr xs) \<Rightarrow>
          (case n of
             0 \<Rightarrow> []
           | Suc m \<Rightarrow> join '','' (map (\<lambda>x. if nullish_st x then [] else toStr_st m h x) xs))
      | None \<Rightarrow> [])"
| "toStr_st n h v = toStr (primitive v)"

definition toPrimitive_st :: "store \<Rightarrow> sval \<Rightarrow> jsval" where
  "toPrimitive_st h v = (case v of SRef a \<Rightarrow> JStr (toStr_st (length h) h v) | _ \<Rightarrow> primitive v)"

fun unprimitive :: "jsval \<Rightarrow> sval" where
  "unprimitive JUndefined = SUndefined"
| "unprimitive JNull = SNull"
| "unprimitive (JBool b) = SBool b"
| "unprimitive (JNum n) = SNum n"
| "unprimitive JNaN = SNaN"
| "unprimitive (JStr s) = SStr s"
| "unprimitive _ = SUndefined"

definition js_add_st :: "sval \<Rightarrow> sval \<Rightarrow> sval comp" where
  "js_add_st a b = reading (\<lambda>h. unprimitive (js_add (toPrimitive_st h a) (toPrimitive_st h b)))"

text \<open>
  \<^verbatim>\<open>reduce\<close> and \<^verbatim>\<open>map\<close> over the elements of an array cell; \<^verbatim>\<open>map\<close> allocates the
  array of results.
\<close>

fun reduce_st :: "(sval \<Rightarrow> sval \<Rightarrow> sval comp) \<Rightarrow> sval \<Rightarrow> sval list \<Rightarrow> sval comp" where
  "reduce_st f acc [] = ret acc"
| "reduce_st f acc (x # xs) = bnd_st (f acc x) (\<lambda>acc'. reduce_st f acc' xs)"

fun map_st :: "(sval \<Rightarrow> sval comp) \<Rightarrow> sval list \<Rightarrow> sval list comp" where
  "map_st f [] = ret []"
| "map_st f (x # xs) = bnd_st (f x) (\<lambda>y. bnd_st (map_st f xs) (\<lambda>ys. ret (y # ys)))"

definition opt_reduce_st :: "sval \<Rightarrow> (sval \<Rightarrow> sval \<Rightarrow> sval comp) \<Rightarrow> sval \<Rightarrow> sval comp" where
  "opt_reduce_st v f init =
     (if nullish_st v then ret SUndefined
      else (\<lambda>h. case v of
              SRef a \<Rightarrow> (case cell_at h a of
                           Some (CArr xs) \<Rightarrow> reduce_st f init xs h
                         | _ \<Rightarrow> throw (TypeError (NotAFunction ''reduce'')) h)
            | _ \<Rightarrow> throw (TypeError (NotAFunction ''reduce'')) h))"

definition opt_map_st :: "sval \<Rightarrow> (sval \<Rightarrow> sval comp) \<Rightarrow> sval comp" where
  "opt_map_st v f =
     (if nullish_st v then ret SUndefined
      else (\<lambda>h. case v of
              SRef a \<Rightarrow> (case cell_at h a of
                           Some (CArr xs) \<Rightarrow> bnd_st (map_st f xs) (\<lambda>ys. alloc (CArr ys)) h
                         | _ \<Rightarrow> throw (TypeError (NotAFunction ''map'')) h)
            | _ \<Rightarrow> throw (TypeError (NotAFunction ''map'')) h))"

text \<open>The callbacks and the handler, statement by statement as in the source.\<close>

definition count_stories_st :: "sval \<Rightarrow> sval \<Rightarrow> sval comp" where
  "count_stories_st acc epic =
     bnd_st (get_st epic ''stories'') (\<lambda>stories.
     bnd_st (opt_get_st stories ''length'') (\<lambda>n.
     bnd_st (js_or_st n (ret (SNum 0))) (\<lambda>c.
       js_add_st acc c)))"

definition add_story_hours_st :: "sval \<Rightarrow> sval \<Rightarrow> sval comp" where
  "add_story_hours_st storySum story =
     bnd_st (get_st story ''estimated_hours'') (\<lambda>hours.
     bnd_st (js_or_st hours (ret (SNum 0))) (\<lambda>c.
       js_add_st storySum c))"

definition story_hours_st :: "sval \<Rightarrow> sval comp" where
  "story_hours_st sts =
     bnd_st (opt_reduce_st sts add_story_hours_st (SNum 0)) (\<lambda>r.
       js_or_st r (ret (SNum 0)))"

definition add_epic_hours_st :: "sval \<Rightarrow> sval \<Rightarrow> sval comp" where
  "add_epic_hours_st acc epic =
     bnd_st (get_st epic ''stories'') (\<lambda>stories.
     bnd_st (story_hours_st stories) (\<lambda>c.
       js_add_st acc c))"

definition breakdown_entry_st :: "sval \<Rightarrow> sval comp" where
  "breakdown_entry_st epic =
     bnd_st (get_st epic ''id'') (\<lambda>eid.
     bnd_st (get_st epic ''title'') (\<lambda>title.
     bnd_st (get_st epic ''stories'') (\<lambda>stories.
     bnd_st (opt_get_st stories ''length'') (\<lambda>n.
     bnd_st (js_or_st n (ret (SNum 0))) (\<lambda>story_count.
     bnd_st (get_st epic ''stories'') (\<lambda>stories'.
     bnd_st (story_hours_st stories') (\<lambda>total_hours.
       alloc (CObj [(''id'', eid),
                    (''title'', title),
                    (''story_count'', story_count),
                    (''total_hours'', total_hours)]))))))))"

definition summary_st :: "sval \<Rightarrow> sval comp" where
  "summary_st backlog =
     bnd_st (get_st backlog ''project'') (\<lambda>project.
     bnd_st (opt_get_st project ''name'') (\<lambda>name.
     bnd_st (js_or_st name (ret (SStr ''Unknown''))) (\<lambda>project_name.
     bnd_st (get_st backlog ''epics'') (\<lambda>epics.
     bnd_st (opt_get_st epics ''length'') (\<lambda>n.
     bnd_st (js_or_st n (ret (SNum 0))) (\<lambda>total_epics.
     bnd_st (opt_reduce_st epics count_stories_st (SNum 0)) (\<lambda>ts.
     bnd_st (js_or_st ts (ret (SNum 0))) (\<lambda>total_stories.
     bnd_st (opt_reduce_st epics add_epic_hours_st (SNum 0)) (\<lambda>th.
     bnd_st (js_or_st th (ret (SNum 0))) (\<lambda>total_estimated_hours.
     bnd_st (opt_map_st epics breakdown_entry_st) (\<lambda>eb.
     bnd_st (js_or_st eb (alloc (CArr []))) (\<lambda>epics_breakdown.
       alloc (CObj [(''project_name'', project_name),
                    (''total_epics'', total_epics),
                    (''total_stories'', total_stories),
                    (''total_estimated_hours'', total_estimated_hours),
                    (''epics_breakdown'', epics_breakdown)])))))))))))))"

datatype content_st = TextJsonAt sval

definition handleGetBacklogSummary_st :: "sval \<Rightarrow> content_st list comp" where
  "handleGetBacklogSummary_st args =
     bnd_st (get_st args ''backlog'') (\<lambda>backlog.
       if \<not> truthy_st backlog \<or> \<not> typeof_object_st backlog
       then throw (Error ''backlog is required and must be an object'')
       else bnd_st (summary_st backlog) (\<lambda>s. ret [TextJsonAt s]))"

text \<open>
  \<open>repr h v j\<close>: in the store \<open>h\<close> the value \<open>v\<close> holds the JSON value \<open>j\<close>, every part
  of it allocated before the whole, as parsing a request body and building an object
  literal do.
\<close>

fun below :: "nat \<Rightarrow> sval \<Rightarrow> bool" where
  "below a (SRef b) = (b < a)"
| "below a _ = True"

declare list.rel_cong [fundef_cong]

fun repr :: "store \<Rightarrow> sval \<Rightarrow> jsval \<Rightarrow> bool" where
  "repr h v JUndefined = (v = SUndefined)"
| "repr h v JNull = (v = SNull)"
| "repr h v (JBool b) = (v = SBool b)"
| "repr h v (JNum n) = (v = SNum n)"
| "repr h v JNaN = (v = SNaN)"
| "repr h v (JStr s) = (v = SStr s)"
| "repr h v (JArr js) =
     (case v of
        SRef a \<Rightarrow>
          (case cell_at h a of
             Some (CArr vs) \<Rightarrow> list_all2 (\<lambda>x j. below a x \<and> repr h x j) vs js
           | _ \<Rightarrow> False)
      | _ \<Rightarrow> False)"
| "repr h v (JObj kjs) =
     (case v of
        SRef a \<Rightarrow>
          (case cell_at h a of
             Some (CObj kvs) \<Rightarrow>
               list_all2 (\<lambda>kv kj. fst kv = fst kj \<and> below a (snd kv) \<and> repr h (snd kv) (snd kj)) kvs kjs
           | _ \<Rightarrow> False)
      | _ \<Rightarrow> False)"

text \<open>
  \<open>frame m\<close>: the computation leaves every cell of the store it started from as it was.
  \<open>refines R h m p\<close>: started in \<open>h\<close>, the computation extends the store and ends as the
  value-level result \<open>p\<close> does, its result related to that of \<open>p\<close> by \<open>R\<close>; \<open>ro\<close> is the
  same for a computation that leaves the store itself unchanged.
\<close>

definition frame :: "'a comp \<Rightarrow> bool" where
  "frame m = (\<forall>h. prefix h (snd (m h)))"

definition refines :: "(store \<Rightarrow> 'a \<Rightarrow> 'b \<Rightarrow> bool) \<Rightarrow> store \<Rightarrow> 'a comp \<Rightarrow> js_error + 'b \<Rightarrow> bool" where
  "refines R h m p =
     (case m h of
        (Inl e, h') \<Rightarrow> prefix h h' \<and> p = Inl e
      | (Inr v, h') \<Rightarrow> prefix h h' \<and> (\<exists>j. p = Inr j \<and> R h' v j))"

definition ro :: "(store \<Rightarrow> 'a \<Rightarrow> 'b \<Rightarrow> bool) \<Rightarrow> store \<Rightarrow> 'a comp \<Rightarrow> js_error + 'b \<Rightarrow> bool" where
  "ro R h m p =
     (case m h of
        (Inl e, h') \<Rightarrow> h' = h \<and> p = Inl e
      | (Inr v, h') \<Rightarrow> h' = h \<and> (\<exists>j. p = Inr j \<and> R h v j))"

text \<open>The text of a tool result in the store serialises the value of the value-level result.\<close>

definition repr_result :: "store \<Rightarrow> content_st list \<Rightarrow> content list \<Rightarrow> bool" where
  "repr_result h cs js = (\<exists>v s. cs = [TextJsonAt v] \<and> js = [TextJson s] \<and> repr h v s)"

text \<open>
  Two calls have the same outcome when they throw the same error or return texts that
  serialise the same JSON value.
\<close>

definition same_summary ::
  "(js_error + content_st list) \<times> store \<Rightarrow> (js_error + content_st list) \<times> store \<Rightarrow> bool" where
  "same_summary r1 r2 =
     (case (fst r1, fst r2) of
        (Inl e1, Inl e2) \<Rightarrow> e1 = e2
      | (Inr cs1, Inr cs2) \<Rightarrow> (\<exists>js. repr_result (snd r1) cs1 js \<and> repr_result (snd r2) cs2 js)
      | _ \<Rightarrow> False)"

section \<open>Examples\<close>

definition example_store :: store where
  "example_store =
     [CObj [(''id'', SStr ''EPIC-1-1''), (''estimated_hours'', SNum 3)],
      CObj [(''id'', SStr ''EPIC-1-2''), (''estimated_hours'', SNum 4)],
      CArr [SRef 0, SRef 1],
      CObj [(''id'', SStr ''EPIC-1''), (''title'', SStr ''Authentication''), (''stories'', SRef 2)],
      CArr [SRef 3],
      CObj [(''epics'', SRef 4)],
      CObj [(''backlog'', SRef 5)]]"

definition example_tree :: jsval where
  "example_tree =
     JObj [(''backlog'', JObj [(''epics'', JArr
       [JObj [(''id'', JStr ''EPIC-1''), (''title'', JStr ''Authentication''),
              (''stories'', JArr
                 [JObj [(''id'', JStr ''EPIC-1-1''), (''estimated_hours'', JNum 3)],
                  JObj [(''id'', JStr ''EPIC-1-2''), (''estimated_hours'', JNum 4)]])]])])]"


definition example_runtime :: runtime where
  "example_runtime = \<lparr>env_STORYCRAFTER_SERVICE_URL = None, fault_text = (\<lambda>f. ''TypeError'')\<rparr>"


definition example_epic :: epic where
  "example_epic =
     \<lparr>epic_id = ''EPIC-1'', epic_title = ''User Authentication'',
      epic_description = ''Basic auth system'', epic_priority = High, category = MVP,
      story_count_target = 4, stories = [], epic_regeneration_notes = None\<rparr>"

definition example_story :: story where
  "example_story =
     \<lparr>story_id = ''EPIC-1-1'', story_title = ''User Registration'',
      story_description = ''As a user, I want to register'',
      acceptance_criteria = [''Can enter email''], technical_tasks = [''Create API''],
      story_priority = P0, story_points = 5, estimated_hours = 10, dependencies = [],
      tags = [], layer = fullstack, story_regeneration_notes = None\<rparr>"

definition example_pipeline :: pipeline where
  "example_pipeline =
     \<lparr>planning = (\<lambda>prompt. Inr ''epic''),
      expansion = (\<lambda>prompt. Inl BackendRejectedError),
      extract_epic = (\<lambda>raw. Inr (example_epic\<lparr>epic_id := ''EPIC-7'', epic_title := ''OAuth''\<rparr>)),
      extract_story = (\<lambda>raw. Inr (example_story\<lparr>story_id := ''EPIC-3-2'', story_points := 8\<rparr>)),
      epic_prompt = (\<lambda>e feedback transcript. feedback @ transcript),
      story_prompt = (\<lambda>e s feedback transcript. feedback @ transcript),
      generic_note = ''Regenerated from feedback''\<rparr>"

section \<open>Properties of the values and of the array methods\<close>

lemma bnd_Inr [simp]: "bnd (Inr x) f = f x"
  by (simp add: bnd_def)

lemma bnd_Inl [simp]: "bnd (Inl e) f = Inl e"
  by (simp add: bnd_def)

lemma js_or_num0 [simp]: "js_or (JNum n) (JNum 0) = JNum n"
  by (simp add: js_or_def)

lemma js_or_undef [simp]: "js_or JUndefined v = v"
  by (simp add: js_or_def)

lemma js_add_num [simp]: "js_add (JNum a) (JNum b) = JNum (a + b)"
  by (simp add: js_add_def)













lemma js_or_arr [simp]: "js_or (JArr xs) v = JArr xs"
  by (simp add: js_or_def)

lemma opt_get_undef [simp]: "opt_get JUndefined k = JUndefined"
  by (simp add: opt_get_def)

lemma opt_get_null [simp]: "opt_get JNull k = JUndefined"
  by (simp add: opt_get_def)

lemma opt_get_arr_length [simp]: "opt_get (JArr xs) ''length'' = JNum (int (length xs))"
  by (simp add: opt_get_def)


























section \<open>Properties of the handlers\<close>



text \<open>
  Claim C2. When \<^verbatim>\<open>consensus_messages\<close> is absent, not a list, or the empty list,
  \<^verbatim>\<open>generate_backlog\<close> fails with an error and the service has not been called: the
  trace of the call is empty.
\<close>

theorem generate_backlog_requires_transcript:
  assumes "\<not> isArray (getprop args ''consensus_messages'')
         \<or> getprop args ''consensus_messages'' = JArr []"
  shows "snd (handleGenerateBacklog rt post args) = []
       \<and> (\<exists>e. fst (handleGenerateBacklog rt post args) = Inl e)
       \<and> (\<not> nullish args \<longrightarrow>
            fst (handleGenerateBacklog rt post args) =
              Inl (Error (if isArray (getprop args ''consensus_messages'')
                          then ''consensus_messages cannot be empty''
                          else ''consensus_messages is required and must be an array'')))"
  using assms by (auto simp: handleGenerateBacklog_def Let_def)

theorem generate_backlog_requires_transcript_witness:
  "getprop (JObj [(''consensus_messages'', JArr [])]) ''consensus_messages'' = JArr []
 \<and> handleGenerateBacklog example_runtime (\<lambda>url body. Rejected_request)
      (JObj [(''consensus_messages'', JArr [])])
    = (Inl (Error ''consensus_messages cannot be empty''), [])
 \<and> \<not> isArray (getprop (JObj []) ''consensus_messages'')
 \<and> handleGenerateBacklog example_runtime (\<lambda>url body. Rejected_request) (JObj [])
    = (Inl (Error ''consensus_messages is required and must be an array''), [])"
  using generate_backlog_requires_transcript
          [of "JObj [(''consensus_messages'', JArr [])]" example_runtime "\<lambda>url body. Rejected_request"]
        generate_backlog_requires_transcript
          [of "JObj []" example_runtime "\<lambda>url body. Rejected_request"]
  by (simp add: prod_eq_iff)








text \<open>
  Claim C6. Regeneration preserves identity: whenever \<open>regenerate_epic\<close> returns an epic
  it carries the id of the original epic, and whenever \<open>regenerate_story\<close> returns a
  story it carries the id of the original story, whatever id the backend output has; and
  both return whenever the backend and the extractor succeed.
\<close>

theorem regeneration_preserves_id:
  "(\<forall>e'. regenerate_epic p e feedback t = Inr e' \<longrightarrow> epic_id e' = epic_id e)
 \<and> (\<forall>s'. regenerate_story p e s feedback t = Inr s' \<longrightarrow> story_id s' = story_id s)
 \<and> (\<forall>raw out. planning p (epic_prompt p e feedback t) = Inr raw \<and> extract_epic p raw = Inr out
       \<longrightarrow> (\<exists>e'. regenerate_epic p e feedback t = Inr e'))
 \<and> (\<forall>raw out. expansion_with_fallback p (story_prompt p e s feedback t) = Inr raw
        \<and> extract_story p raw = Inr out
       \<longrightarrow> (\<exists>s'. regenerate_story p e s feedback t = Inr s'))"
  by (auto simp: regenerate_epic_def regenerate_story_def split: sum.splits)

theorem regeneration_preserves_id_witness:
  "(\<exists>e'. regenerate_epic example_pipeline example_epic ''use OAuth'' ''Project: Test App'' = Inr e'
        \<and> epic_id e' = ''EPIC-1'')
 \<and> (\<exists>s'. regenerate_story example_pipeline example_epic example_story
            ''add verification'' ''Project: Test App'' = Inr s'
        \<and> story_id s' = ''EPIC-1-1'')"
proof -
  have e: "\<exists>e'. regenerate_epic example_pipeline example_epic ''use OAuth'' ''Project: Test App'' = Inr e'"
    by (simp add: regenerate_epic_def example_pipeline_def)
  have s: "\<exists>s'. regenerate_story example_pipeline example_epic example_story
            ''add verification'' ''Project: Test App'' = Inr s'"
    by (simp add: regenerate_story_def expansion_with_fallback_def example_pipeline_def)
  from e s regeneration_preserves_id
         [of example_pipeline example_epic "''use OAuth''" "''Project: Test App''" example_story]
       regeneration_preserves_id
         [of example_pipeline example_epic "''add verification''" "''Project: Test App''" example_story]
  show ?thesis
    by (auto simp: example_epic_def example_story_def)
qed


















section \<open>The handler on a store: frame and refinement\<close>

lemma frame_ret: "frame (ret x)"
  by (simp add: frame_def ret_def)

lemma frame_throw: "frame (throw e)"
  by (simp add: frame_def throw_def)

lemma frame_reading: "frame (reading f)"
  by (simp add: frame_def reading_def)

lemma frame_alloc: "frame (alloc c)"
  by (simp add: frame_def alloc_def)

lemma assign_not_frame: "\<not> frame (assign 0 (CArr []))"
proof
  assume "frame (assign 0 (CArr []))"
  then have "prefix [CObj []] (snd (assign 0 (CArr []) [CObj []]))"
    unfolding frame_def by (rule spec)
  then show False
    by (simp add: assign_def)
qed

lemma frame_bnd:
  assumes "frame m" and "\<And>x. frame (f x)"
  shows "frame (bnd_st m f)"
  unfolding frame_def
proof
  fix h
  obtain r h' where m: "m h = (r, h')" by (cases "m h")
  from assms(1) m have p: "prefix h h'" by (auto simp: frame_def dest: spec [of _ h])
  show "prefix h (snd (bnd_st m f h))"
  proof (cases r)
    case (Inl e)
    with m p show ?thesis by (simp add: bnd_st_def)
  next
    case (Inr x)
    from assms(2) [of x] have "prefix h' (snd (f x h'))" by (simp add: frame_def)
    with p have "prefix h (snd (f x h'))" by (rule prefix_order.trans)
    with m Inr show ?thesis by (simp add: bnd_st_def)
  qed
qed

lemma frame_get: "frame (get_st v k)"
  by (simp add: get_st_def frame_throw frame_reading)

lemma frame_opt_get: "frame (opt_get_st v k)"
  by (simp add: opt_get_st_def frame_ret frame_reading)

lemma frame_js_or: "frame b \<Longrightarrow> frame (js_or_st a b)"
  by (simp add: js_or_st_def frame_ret)

lemma frame_js_add: "frame (js_add_st a b)"
  by (simp add: js_add_st_def frame_reading)

lemma frame_reduce:
  assumes "\<And>acc x. frame (f acc x)"
  shows "frame (reduce_st f acc xs)"
  by (induction xs arbitrary: acc) (simp_all add: frame_ret frame_bnd assms)

lemma frame_map:
  assumes "\<And>x. frame (f x)"
  shows "frame (map_st f xs)"
  by (induction xs) (simp_all add: frame_ret frame_bnd assms)

lemma frame_opt_reduce:
  assumes "\<And>acc x. frame (f acc x)"
  shows "frame (opt_reduce_st v f init)"
proof (cases "nullish_st v")
  case True
  then show ?thesis by (simp add: opt_reduce_st_def frame_ret)
next
  case False
  have "prefix h (snd (opt_reduce_st v f init h))" for h
    using False frame_reduce [of f init, OF assms] frame_throw [of "TypeError (NotAFunction ''reduce'')"]
    by (auto simp: opt_reduce_st_def frame_def split: sval.splits option.splits cell.splits)
  then show ?thesis by (simp add: frame_def)
qed

lemma frame_opt_map:
  assumes "\<And>x. frame (f x)"
  shows "frame (opt_map_st v f)"
proof (cases "nullish_st v")
  case True
  then show ?thesis by (simp add: opt_map_st_def frame_ret)
next
  case False
  have m: "frame (bnd_st (map_st f xs) (\<lambda>ys. alloc (CArr ys)))" for xs
    by (simp add: frame_bnd frame_map assms frame_alloc)
  have "prefix h (snd (opt_map_st v f h))" for h
    using False m frame_throw [of "TypeError (NotAFunction ''map'')"]
    by (auto simp: opt_map_st_def frame_def split: sval.splits option.splits cell.splits)
  then show ?thesis by (simp add: frame_def)
qed

lemma frame_count_stories: "frame (count_stories_st acc epic)"
  by (simp add: count_stories_st_def frame_bnd frame_get frame_opt_get frame_js_or frame_ret
        frame_js_add)

lemma frame_add_story_hours: "frame (add_story_hours_st acc story)"
  by (simp add: add_story_hours_st_def frame_bnd frame_get frame_js_or frame_ret frame_js_add)

lemma frame_story_hours: "frame (story_hours_st sts)"
  by (simp add: story_hours_st_def frame_bnd frame_opt_reduce frame_add_story_hours frame_js_or
        frame_ret)

lemma frame_add_epic_hours: "frame (add_epic_hours_st acc epic)"
  by (simp add: add_epic_hours_st_def frame_bnd frame_get frame_story_hours frame_js_add)

lemma frame_breakdown_entry: "frame (breakdown_entry_st epic)"
  by (simp add: breakdown_entry_st_def frame_bnd frame_get frame_opt_get frame_js_or frame_ret
        frame_story_hours frame_alloc)

lemma frame_summary: "frame (summary_st backlog)"
  by (simp add: summary_st_def frame_bnd frame_get frame_opt_get frame_js_or frame_ret
        frame_opt_reduce frame_count_stories frame_add_epic_hours frame_opt_map
        frame_breakdown_entry frame_alloc)

lemma frame_handler: "frame (handleGetBacklogSummary_st args)"
  by (simp add: handleGetBacklogSummary_st_def frame_bnd frame_get frame_throw frame_summary
        frame_ret)

lemma prefix_cell_at: "prefix h h' \<Longrightarrow> cell_at h a = Some c \<Longrightarrow> cell_at h' a = Some c"
  by (auto simp: prefix_def cell_at_def nth_append split: if_splits)

lemma repr_mono:
  assumes "prefix h h'"
  shows "repr h v j \<Longrightarrow> repr h' v j"
proof (induction j arbitrary: v)
  case (JArr js)
  then obtain a vs where v: "v = SRef a" and c: "cell_at h a = Some (CArr vs)"
    and l: "list_all2 (\<lambda>x j. below a x \<and> repr h x j) vs js"
    by (auto split: sval.splits option.splits cell.splits)
  from l have "list_all2 (\<lambda>x j. below a x \<and> repr h' x j) vs js"
    by (rule list.rel_mono_strong) (use JArr.IH in auto)
  with v prefix_cell_at [OF assms c] show ?case by simp
next
  case (JObj kjs)
  then obtain a kvs where v: "v = SRef a" and c: "cell_at h a = Some (CObj kvs)"
    and l: "list_all2 (\<lambda>kv kj. fst kv = fst kj \<and> below a (snd kv) \<and> repr h (snd kv) (snd kj)) kvs kjs"
    by (auto split: sval.splits option.splits cell.splits)
  from l have "list_all2 (\<lambda>kv kj. fst kv = fst kj \<and> below a (snd kv) \<and> repr h' (snd kv) (snd kj)) kvs kjs"
  proof (rule list.rel_mono_strong)
    fix kv kj
    assume "kv \<in> set kvs" and kj: "kj \<in> set kjs"
      and "fst kv = fst kj \<and> below a (snd kv) \<and> repr h (snd kv) (snd kj)"
    moreover have "snd kj \<in> Basic_BNFs.snds kj"
      by (cases kj) simp
    ultimately show "fst kv = fst kj \<and> below a (snd kv) \<and> repr h' (snd kv) (snd kj)"
      using JObj.IH [of kj "snd kj" "snd kv"] by simp
  qed
  with v prefix_cell_at [OF assms c] show ?case by simp
qed simp_all

lemma repr_below: "repr h v j \<Longrightarrow> below (length h) v"
  by (cases j; cases v) (auto simp: cell_at_def split: option.splits if_splits)

lemma repr_nullish: "repr h v j \<Longrightarrow> nullish_st v = nullish j"
  by (cases j; cases v) auto

lemma repr_truthy: "repr h v j \<Longrightarrow> truthy_st v = truthy j"
  by (cases j; cases v) auto

lemma repr_typeof_object: "repr h v j \<Longrightarrow> typeof_object_st v = typeof_object j"
  by (cases j; cases v) auto

lemma repr_primitive: "repr h v j \<Longrightarrow> nullish_st v \<Longrightarrow> primitive v = j"
  by (cases j; cases v) auto

lemma repr_fields_map_of:
  assumes "list_all2 (\<lambda>kv kj. fst kv = fst kj \<and> below a (snd kv) \<and> repr h (snd kv) (snd kj)) kvs kjs"
  shows "repr h (case map_of kvs k of None \<Rightarrow> SUndefined | Some v \<Rightarrow> v)
                (case map_of kjs k of None \<Rightarrow> JUndefined | Some j \<Rightarrow> j)"
  using assms
proof (induction kvs kjs rule: list_all2_induct)
  case Nil
  show ?case by simp
next
  case (Cons kv kvs kj kjs)
  then show ?case by (cases kv; cases kj) auto
qed

lemma repr_getprop: "repr h v j \<Longrightarrow> repr h (getprop_st h v k) (getprop j k)"
proof (cases j)
  case (JArr js)
  assume "repr h v j"
  with JArr show ?thesis
    by (auto split: sval.splits option.splits cell.splits dest: list_all2_lengthD)
next
  case (JObj kjs)
  assume "repr h v j"
  with JObj obtain a kvs where v: "v = SRef a" and c: "cell_at h a = Some (CObj kvs)"
    and l: "list_all2 (\<lambda>kv kj. fst kv = fst kj \<and> below a (snd kv) \<and> repr h (snd kv) (snd kj)) kvs kjs"
    by (auto split: sval.splits option.splits cell.splits)
  from repr_fields_map_of [OF l, of k] v c JObj show ?thesis by simp
qed auto

lemma ro_refines: "ro R h m p \<Longrightarrow> refines R h m p"
  by (auto simp: ro_def refines_def split: prod.splits sum.splits)

lemma ro_ret: "R h v j \<Longrightarrow> ro R h (ret v) (Inr j)"
  by (simp add: ro_def ret_def)

lemma ro_bnd:
  assumes "ro R h m p" and "\<And>v j. R h v j \<Longrightarrow> ro Q h (f v) (g j)"
  shows "ro Q h (bnd_st m f) (bnd p g)"
proof -
  obtain r h' where m: "m h = (r, h')" by (cases "m h")
  show ?thesis
  proof (cases r)
    case (Inl e)
    with assms(1) m show ?thesis by (simp add: ro_def bnd_st_def)
  next
    case (Inr v)
    with assms(1) m obtain j where p: "h' = h" "p = Inr j" "R h v j"
      by (auto simp: ro_def)
    from assms(2) [OF p(3)] m Inr p(1,2) show ?thesis
      by (simp add: ro_def bnd_st_def)
  qed
qed

lemma ro_then:
  assumes "ro R h m p" and "\<And>v j. R h v j \<Longrightarrow> refines Q h (f v) (g j)"
  shows "refines Q h (bnd_st m f) (bnd p g)"
proof -
  obtain r h' where m: "m h = (r, h')" by (cases "m h")
  show ?thesis
  proof (cases r)
    case (Inl e)
    with assms(1) m show ?thesis by (simp add: ro_def refines_def bnd_st_def)
  next
    case (Inr v)
    with assms(1) m obtain j where p: "h' = h" "p = Inr j" "R h v j"
      by (auto simp: ro_def)
    from assms(2) [OF p(3)] m Inr p(1,2) show ?thesis
      by (simp add: refines_def bnd_st_def)
  qed
qed

lemma refines_ret: "R h v j \<Longrightarrow> refines R h (ret v) (Inr j)"
  by (simp add: refines_def ret_def)

lemma refines_bnd:
  assumes "refines R h m p"
      and "\<And>h' v j. prefix h h' \<Longrightarrow> R h' v j \<Longrightarrow> refines Q h' (f v) (g j)"
  shows "refines Q h (bnd_st m f) (bnd p g)"
proof -
  obtain r h' where m: "m h = (r, h')" by (cases "m h")
  show ?thesis
  proof (cases r)
    case (Inl e)
    with assms(1) m show ?thesis by (simp add: refines_def bnd_st_def)
  next
    case (Inr v)
    with assms(1) m obtain j where p: "prefix h h'" "p = Inr j" "R h' v j"
      by (auto simp: refines_def)
    from assms(2) [OF p(1) p(3)] have "refines Q h' (f v) (g j)" .
    with p(1) have "refines Q h (f v \<circ> (\<lambda>_. h')) (g j)"
      by (auto simp: refines_def split: prod.splits sum.splits intro: prefix_order.trans)
    with m Inr p(2) show ?thesis
      by (simp add: refines_def bnd_st_def)
  qed
qed

lemma ro_get: "repr h v j \<Longrightarrow> ro repr h (get_st v k) (get j k)"
  by (auto simp: ro_def get_st_def get_def throw_def reading_def repr_nullish
        repr_primitive repr_getprop)

lemma ro_opt_get: "repr h v j \<Longrightarrow> ro repr h (opt_get_st v k) (Inr (opt_get j k))"
  by (auto simp: ro_def opt_get_st_def opt_get_def ret_def reading_def repr_nullish
        repr_getprop)

lemma ro_js_or_num: "repr h a ja \<Longrightarrow> ro repr h (js_or_st a (ret (SNum n))) (Inr (js_or ja (JNum n)))"
  by (auto simp: js_or_st_def js_or_def repr_truthy intro: ro_ret)

lemma ro_js_or_str: "repr h a ja \<Longrightarrow> ro repr h (js_or_st a (ret (SStr s))) (Inr (js_or ja (JStr s)))"
  by (auto simp: js_or_st_def js_or_def repr_truthy intro: ro_ret)

lemma below_mono: "below a x \<Longrightarrow> a \<le> m \<Longrightarrow> below m x"
  by (cases x) auto

lemma list_all2_map_eq:
  assumes "list_all2 P xs ys"
      and "\<And>x y. x \<in> set xs \<Longrightarrow> y \<in> set ys \<Longrightarrow> P x y \<Longrightarrow> f x = g y"
  shows "map f xs = map g ys"
  using assms by (induction xs ys rule: list_all2_induct) auto

lemma repr_toStr: "repr h v j \<Longrightarrow> below n v \<Longrightarrow> toStr_st n h v = toStr j"
proof (induction j arbitrary: v n)
  case (JArr js)
  then obtain a vs where v: "v = SRef a" and c: "cell_at h a = Some (CArr vs)"
    and l: "list_all2 (\<lambda>x j. below a x \<and> repr h x j) vs js"
    by (auto split: sval.splits option.splits cell.splits)
  from JArr.prems(2) v obtain m where n: "n = Suc m" and am: "a \<le> m"
    by (cases n) auto
  from l have "map (\<lambda>x. if nullish_st x then [] else toStr_st m h x) vs =
               map (\<lambda>x. if nullish x then [] else toStr x) js"
  proof (rule list_all2_map_eq)
    fix x y
    assume "x \<in> set vs" and y: "y \<in> set js" and xy: "below a x \<and> repr h x y"
    from xy am have "below m x" by (auto intro: below_mono)
    with xy JArr.IH [OF y, of x m] have "toStr_st m h x = toStr y"
      by simp
    moreover from xy have "nullish_st x = nullish y" by (auto dest: repr_nullish)
    ultimately show "(if nullish_st x then [] else toStr_st m h x) =
                     (if nullish y then [] else toStr y)"
      by simp
  qed
  with v c n show ?case by simp
next
  case (JObj kjs)
  then show ?case by (auto split: sval.splits option.splits cell.splits)
qed auto

lemma repr_toPrimitive: "repr h v j \<Longrightarrow> toPrimitive_st h v = toPrimitive j"
proof (cases v)
  case (SRef a)
  assume r: "repr h v j"
  from repr_toStr [OF r repr_below [OF r]] SRef r show ?thesis
    by (cases j) (simp_all add: toPrimitive_st_def)
qed (cases j; simp add: toPrimitive_st_def)+

lemma repr_unprimitive_js_add: "repr h (unprimitive (js_add ja jb)) (js_add ja jb)"
  by (auto simp: js_add_def Let_def split: option.splits)

lemma ro_js_add:
  assumes "repr h a ja" and "repr h b jb"
  shows "ro repr h (js_add_st a b) (Inr (js_add ja jb))"
proof -
  have "js_add (toPrimitive ja) (toPrimitive jb) = js_add ja jb"
    by (cases ja; cases jb) (simp_all add: js_add_def)
  with assms show ?thesis
    by (simp add: ro_def js_add_st_def reading_def repr_toPrimitive repr_unprimitive_js_add)
qed

lemma ro_reduce:
  assumes "\<And>a x ja jx. repr h a ja \<Longrightarrow> repr h x jx \<Longrightarrow> ro repr h (f a x) (g ja jx)"
  shows "list_all2 (repr h) xs js \<Longrightarrow> repr h acc ja
           \<Longrightarrow> ro repr h (reduce_st f acc xs) (reduce g ja js)"
proof (induction xs arbitrary: js acc ja)
  case Nil
  then show ?case by (simp add: ro_ret)
next
  case (Cons x xs)
  from Cons.prems(1) obtain jx js' where js: "js = jx # js'" and x: "repr h x jx"
    and xs: "list_all2 (repr h) xs js'"
    by (cases js) auto
  have "ro repr h (bnd_st (f acc x) (\<lambda>acc'. reduce_st f acc' xs))
          (bnd (g ja jx) (\<lambda>acc'. reduce g acc' js'))"
    by (rule ro_bnd [OF assms [OF Cons.prems(2) x]]) (rule Cons.IH [OF xs])
  with js show ?case by simp
qed

lemma repr_elements:
  assumes "repr h v (JArr js)"
  obtains a vs where "v = SRef a" and "cell_at h a = Some (CArr vs)" and "list_all2 (repr h) vs js"
proof -
  from assms obtain a vs where v: "v = SRef a" and c: "cell_at h a = Some (CArr vs)"
    and l: "list_all2 (\<lambda>x j. below a x \<and> repr h x j) vs js"
    by (auto split: sval.splits option.splits cell.splits)
  from l have "list_all2 (repr h) vs js"
    by (rule list.rel_mono_strong) simp
  with v c that show thesis by blast
qed

lemma ro_opt_reduce:
  assumes "repr h v j" and "repr h init jinit"
      and "\<And>a x ja jx. repr h a ja \<Longrightarrow> repr h x jx \<Longrightarrow> ro repr h (f a x) (g ja jx)"
  shows "ro repr h (opt_reduce_st v f init) (opt_reduce j g jinit)"
proof (cases j)
  case (JArr js)
  from assms(1) JArr have "repr h v (JArr js)" by simp
  then obtain a vs where v: "v = SRef a" and c: "cell_at h a = Some (CArr vs)"
    and l: "list_all2 (repr h) vs js"
    by (rule repr_elements)
  from ro_reduce [of h f g, OF assms(3) l assms(2)] v c JArr show ?thesis
    by (simp add: opt_reduce_st_def ro_def)
next
  case (JObj kjs)
  with assms(1) show ?thesis
    by (auto simp: opt_reduce_st_def ro_def throw_def split: sval.splits option.splits cell.splits)
qed (use assms(1) in \<open>auto simp: opt_reduce_st_def ro_def throw_def ret_def\<close>)

lemma ro_add_story_hours:
  assumes "repr h acc ja" and "repr h s js"
  shows "ro repr h (add_story_hours_st acc s) (add_story_hours ja js)"
proof -
  have "add_story_hours ja js =
      bnd (get js ''estimated_hours'') (\<lambda>hours.
      bnd (Inr (js_or hours (JNum 0))) (\<lambda>c. Inr (js_add ja c)))"
    by (simp add: add_story_hours_def)
  then show ?thesis
    unfolding add_story_hours_st_def
    by (elim ssubst) (rule ro_bnd ro_get ro_js_or_num ro_js_add assms | assumption)+
qed

lemma ro_story_hours:
  assumes "repr h sts jsts"
  shows "ro repr h (story_hours_st sts) (story_hours jsts)"
proof -
  have "story_hours jsts =
      bnd (opt_reduce jsts add_story_hours (JNum 0)) (\<lambda>r. Inr (js_or r (JNum 0)))"
    by (simp add: story_hours_def)
  then show ?thesis
    unfolding story_hours_st_def
    by (elim ssubst)
       (rule ro_bnd ro_opt_reduce ro_js_or_num ro_add_story_hours assms | assumption | simp)+
qed

lemma ro_count_stories:
  assumes "repr h acc ja" and "repr h e je"
  shows "ro repr h (count_stories_st acc e) (count_stories ja je)"
proof -
  have "count_stories ja je =
      bnd (get je ''stories'') (\<lambda>sts.
      bnd (Inr (opt_get sts ''length'')) (\<lambda>n.
      bnd (Inr (js_or n (JNum 0))) (\<lambda>c. Inr (js_add ja c))))"
    by (simp add: count_stories_def)
  then show ?thesis
    unfolding count_stories_st_def
    by (elim ssubst) (rule ro_bnd ro_get ro_opt_get ro_js_or_num ro_js_add assms | assumption)+
qed

lemma ro_add_epic_hours:
  assumes "repr h acc ja" and "repr h e je"
  shows "ro repr h (add_epic_hours_st acc e) (add_epic_hours ja je)"
proof -
  have "add_epic_hours ja je =
      bnd (get je ''stories'') (\<lambda>sts.
      bnd (story_hours sts) (\<lambda>c. Inr (js_add ja c)))"
    by (simp add: add_epic_hours_def)
  then show ?thesis
    unfolding add_epic_hours_st_def
    by (elim ssubst) (rule ro_bnd ro_get ro_story_hours ro_js_add assms | assumption)+
qed

lemma cell_at_alloc: "cell_at (h @ [c]) (length h) = Some c"
  by (simp add: cell_at_def)

lemma refines_alloc_arr:
  assumes "list_all2 (repr h) ys jys"
  shows "refines repr h (alloc (CArr ys)) (Inr (JArr jys))"
proof -
  from assms have "list_all2 (\<lambda>x j. below (length h) x \<and> repr (h @ [CArr ys]) x j) ys jys"
    by (rule list.rel_mono_strong) (auto intro: repr_below repr_mono)
  then show ?thesis
    by (simp add: refines_def alloc_def cell_at_alloc)
qed

lemma refines_alloc_obj:
  assumes "list_all2 (\<lambda>kv kj. fst kv = fst kj \<and> repr h (snd kv) (snd kj)) kvs kjs"
  shows "refines repr h (alloc (CObj kvs)) (Inr (JObj kjs))"
proof -
  from assms have "list_all2 (\<lambda>kv kj. fst kv = fst kj \<and> below (length h) (snd kv)
                      \<and> repr (h @ [CObj kvs]) (snd kv) (snd kj)) kvs kjs"
    by (rule list.rel_mono_strong) (auto intro: repr_below repr_mono)
  then show ?thesis
    by (simp add: refines_def alloc_def cell_at_alloc)
qed

lemma refines_breakdown_entry:
  assumes "repr h e je"
  shows "refines repr h (breakdown_entry_st e) (breakdown_entry je)"
proof -
  have "breakdown_entry je =
      bnd (get je ''id'') (\<lambda>eid.
      bnd (get je ''title'') (\<lambda>title.
      bnd (get je ''stories'') (\<lambda>sts.
      bnd (Inr (opt_get sts ''length'')) (\<lambda>n.
      bnd (Inr (js_or n (JNum 0))) (\<lambda>story_count.
      bnd (get je ''stories'') (\<lambda>sts'.
      bnd (story_hours sts') (\<lambda>total_hours.
        Inr (JObj [(''id'', eid),
                   (''title'', title),
                   (''story_count'', story_count),
                   (''total_hours'', total_hours)]))))))))"
    by (cases "get je ''id''"; cases "get je ''title''"; cases "get je ''stories''")
       (simp_all add: breakdown_entry_def)
  then show ?thesis
    unfolding breakdown_entry_st_def
    by (elim ssubst)
       (rule ro_then ro_get ro_opt_get ro_js_or_num ro_story_hours refines_alloc_obj assms
         | assumption | simp)+
qed

lemma refines_map:
  assumes "\<And>h' x jx. prefix h h' \<Longrightarrow> repr h' x jx \<Longrightarrow> refines repr h' (f x) (g jx)"
  shows "list_all2 (repr h) xs js
           \<Longrightarrow> refines (\<lambda>h ys jys. list_all2 (repr h) ys jys) h (map_st f xs) (map_e g js)"
  using assms
proof (induction xs arbitrary: js h)
  case Nil
  then show ?case by (simp add: refines_ret)
next
  case (Cons x xs)
  from Cons.prems(1) obtain jx js' where js: "js = jx # js'" and x: "repr h x jx"
    and xs: "list_all2 (repr h) xs js'"
    by (cases js) auto
  have step: "refines repr h (f x) (g jx)"
    using Cons.prems(2) [of h x jx] x by simp
  have "refines (\<lambda>h ys jys. list_all2 (repr h) ys jys) h
          (bnd_st (f x) (\<lambda>y. bnd_st (map_st f xs) (\<lambda>ys. ret (y # ys))))
          (bnd (g jx) (\<lambda>y. bnd (map_e g js') (\<lambda>ys. Inr (y # ys))))"
  proof (rule refines_bnd [OF step])
    fix h' v j
    assume p: "prefix h h'" and v: "repr h' v j"
    from xs p have xs': "list_all2 (repr h') xs js'"
      by (auto elim!: list.rel_mono_strong intro: repr_mono)
    have rest: "refines (\<lambda>h ys jys. list_all2 (repr h) ys jys) h' (map_st f xs) (map_e g js')"
    proof (rule Cons.IH [OF xs'])
      fix h'' y jy
      assume "prefix h' h''" and "repr h'' y jy"
      with p show "refines repr h'' (f y) (g jy)"
        using Cons.prems(2) [of h'' y jy] by (auto intro: prefix_order.trans)
    qed
    show "refines (\<lambda>h ys jys. list_all2 (repr h) ys jys) h'
            (bnd_st (map_st f xs) (\<lambda>ys. ret (v # ys)))
            (bnd (map_e g js') (\<lambda>ys. Inr (j # ys)))"
    proof (rule refines_bnd [OF rest])
      fix h'' ys jys
      assume "prefix h' h''" and "list_all2 (repr h'') ys jys"
      with v show "refines (\<lambda>h ys jys. list_all2 (repr h) ys jys) h'' (ret (v # ys)) (Inr (j # jys))"
        by (auto intro!: refines_ret intro: repr_mono)
    qed
  qed
  with js show ?case by simp
qed

lemma refines_opt_map:
  assumes "repr h v j"
  shows "refines repr h (opt_map_st v breakdown_entry_st) (opt_map j breakdown_entry)"
proof (cases j)
  case (JArr js)
  from assms JArr have "repr h v (JArr js)" by simp
  then obtain a vs where v: "v = SRef a" and c: "cell_at h a = Some (CArr vs)"
    and l: "list_all2 (repr h) vs js"
    by (rule repr_elements)
  have "refines repr h (bnd_st (map_st breakdown_entry_st vs) (\<lambda>ys. alloc (CArr ys)))
          (bnd (map_e breakdown_entry js) (\<lambda>ys. Inr (JArr ys)))"
    by (rule refines_bnd [OF refines_map [OF _ l]]) (auto intro: refines_breakdown_entry refines_alloc_arr)
  with v c JArr show ?thesis
    by (simp add: opt_map_st_def refines_def)
next
  case (JObj kjs)
  with assms show ?thesis
    by (auto simp: opt_map_st_def refines_def throw_def split: sval.splits option.splits cell.splits)
qed (use assms in \<open>auto simp: opt_map_st_def refines_def throw_def ret_def\<close>)

lemma refines_js_or_arr:
  assumes "repr h a ja"
  shows "refines repr h (js_or_st a (alloc (CArr []))) (Inr (js_or ja (JArr [])))"
proof (cases "truthy ja")
  case True
  with assms show ?thesis
    by (auto simp: js_or_st_def js_or_def dest: repr_truthy intro: refines_ret)
next
  case False
  with assms refines_alloc_arr [of h "[]" "[]"] show ?thesis
    by (auto simp: js_or_st_def js_or_def dest: repr_truthy)
qed

lemma summary_tail:
  assumes "repr h pn jpn" and "repr h te jte" and "repr h ts jts" and "repr h th jth"
      and "repr h epics jepics"
  shows "refines repr h
           (bnd_st (opt_map_st epics breakdown_entry_st) (\<lambda>eb.
            bnd_st (js_or_st eb (alloc (CArr []))) (\<lambda>epics_breakdown.
              alloc (CObj [(''project_name'', pn),
                           (''total_epics'', te),
                           (''total_stories'', ts),
                           (''total_estimated_hours'', th),
                           (''epics_breakdown'', epics_breakdown)]))))
           (bnd (opt_map jepics breakdown_entry) (\<lambda>eb.
            bnd (Inr (js_or eb (JArr []))) (\<lambda>epics_breakdown.
              Inr (JObj [(''project_name'', jpn),
                         (''total_epics'', jte),
                         (''total_stories'', jts),
                         (''total_estimated_hours'', jth),
                         (''epics_breakdown'', epics_breakdown)]))))"
proof (rule refines_bnd [OF refines_opt_map [OF assms(5)]])
  fix h' v j
  assume p: "prefix h h'" and v: "repr h' v j"
  show "refines repr h'
          (bnd_st (js_or_st v (alloc (CArr []))) (\<lambda>epics_breakdown.
              alloc (CObj [(''project_name'', pn),
                           (''total_epics'', te),
                           (''total_stories'', ts),
                           (''total_estimated_hours'', th),
                           (''epics_breakdown'', epics_breakdown)])))
          (bnd (Inr (js_or j (JArr []))) (\<lambda>epics_breakdown.
              Inr (JObj [(''project_name'', jpn),
                         (''total_epics'', jte),
                         (''total_stories'', jts),
                         (''total_estimated_hours'', jth),
                         (''epics_breakdown'', epics_breakdown)])))"
  proof (rule refines_bnd [OF refines_js_or_arr [OF v]])
    fix h'' b jb
    assume p': "prefix h' h''" and b: "repr h'' b jb"
    from p p' have pp: "prefix h h''" by (rule prefix_order.trans)
    note lifted = assms(1-4) [THEN repr_mono [OF pp]]
    show "refines repr h''
            (alloc (CObj [(''project_name'', pn),
                           (''total_epics'', te),
                           (''total_stories'', ts),
                           (''total_estimated_hours'', th),
                           (''epics_breakdown'', b)]))
            (Inr (JObj [(''project_name'', jpn),
                         (''total_epics'', jte),
                         (''total_stories'', jts),
                         (''total_estimated_hours'', jth),
                         (''epics_breakdown'', jb)]))"
      by (rule refines_alloc_obj) (simp add: lifted b)
  qed
qed

lemma refines_summary:
  assumes "repr h b jb" and "\<not> nullish jb"
  shows "refines repr h (summary_st b) (summary jb)"
proof -
  from assms(2) have "summary jb =
      bnd (get jb ''project'') (\<lambda>project.
      bnd (Inr (opt_get project ''name'')) (\<lambda>name.
      bnd (Inr (js_or name (JStr ''Unknown''))) (\<lambda>project_name.
      bnd (get jb ''epics'') (\<lambda>epics.
      bnd (Inr (opt_get epics ''length'')) (\<lambda>n.
      bnd (Inr (js_or n (JNum 0))) (\<lambda>total_epics.
      bnd (opt_reduce epics count_stories (JNum 0)) (\<lambda>ts.
      bnd (Inr (js_or ts (JNum 0))) (\<lambda>total_stories.
      bnd (opt_reduce epics add_epic_hours (JNum 0)) (\<lambda>th.
      bnd (Inr (js_or th (JNum 0))) (\<lambda>total_estimated_hours.
      bnd (opt_map epics breakdown_entry) (\<lambda>eb.
      bnd (Inr (js_or eb (JArr []))) (\<lambda>epics_breakdown.
        Inr (JObj [(''project_name'', project_name),
                   (''total_epics'', total_epics),
                   (''total_stories'', total_stories),
                   (''total_estimated_hours'', total_estimated_hours),
                   (''epics_breakdown'', epics_breakdown)])))))))))))))"
    by (cases "opt_reduce (getprop jb ''epics'') count_stories (JNum 0)";
        cases "opt_reduce (getprop jb ''epics'') add_epic_hours (JNum 0)")
       (simp_all add: summary_def get_def Let_def)
  then show ?thesis
    unfolding summary_st_def
    by (elim ssubst)
       (rule summary_tail ro_then ro_get ro_opt_get ro_js_or_num ro_js_or_str ro_opt_reduce
             ro_count_stories ro_add_epic_hours assms(1)
         | assumption | simp)+
qed

lemma refines_handler:
  assumes "repr h args jargs"
  shows "refines repr_result h (handleGetBacklogSummary_st args) (handleGetBacklogSummary jargs)"
proof -
  have "refines repr_result h
          (if \<not> truthy_st b \<or> \<not> typeof_object_st b
           then throw (Error ''backlog is required and must be an object'')
           else bnd_st (summary_st b) (\<lambda>s. ret [TextJsonAt s]))
          (if \<not> truthy jb \<or> \<not> typeof_object jb
           then Inl (Error ''backlog is required and must be an object'')
           else bnd (summary jb) (\<lambda>s. Inr [TextJson s]))"
    if b: "repr h b jb" for b jb
  proof (cases "\<not> truthy jb \<or> \<not> typeof_object jb")
    case True
    with b show ?thesis
      by (auto simp: refines_def throw_def dest: repr_truthy repr_typeof_object)
  next
    case False
    then have nn: "\<not> nullish jb" by (cases jb) auto
    have "refines repr_result h (bnd_st (summary_st b) (\<lambda>s. ret [TextJsonAt s]))
            (bnd (summary jb) (\<lambda>s. Inr [TextJson s]))"
      by (rule refines_bnd [OF refines_summary [OF b nn]])
         (simp add: refines_ret repr_result_def)
    with False b show ?thesis
      by (auto dest: repr_truthy repr_typeof_object)
  qed
  then show ?thesis
    unfolding handleGetBacklogSummary_st_def handleGetBacklogSummary_def
    by (rule ro_then [OF ro_get [OF assms]])
qed

text \<open>
  Claim C8. \<^verbatim>\<open>get_backlog_summary\<close> is read-only and deterministic. Whatever the store
  and the argument, every cell that existed before the call is unchanged after it: no field
  of the backlog, of its epics or of its stories is written. And two calls whose arguments
  hold the same JSON value, in the same store or in different ones, throw the same error or
  return texts that serialise the same summary.
\<close>

theorem summary_deterministic_and_read_only:
  "prefix h (snd (handleGetBacklogSummary_st args h))
 \<and> (\<forall>a < length h. snd (handleGetBacklogSummary_st args h) ! a = h ! a)
 \<and> (repr h1 args1 j \<and> repr h2 args2 j \<longrightarrow>
      same_summary (handleGetBacklogSummary_st args1 h1) (handleGetBacklogSummary_st args2 h2))"
proof (intro conjI allI impI)
  show p: "prefix h (snd (handleGetBacklogSummary_st args h))"
    using frame_handler [of args] by (simp add: frame_def)
  fix a assume "a < length h"
  with p show "snd (handleGetBacklogSummary_st args h) ! a = h ! a"
    by (auto simp: prefix_def nth_append)
next
  assume r: "repr h1 args1 j \<and> repr h2 args2 j"
  then have r1: "refines repr_result h1 (handleGetBacklogSummary_st args1) (handleGetBacklogSummary j)"
    and r2: "refines repr_result h2 (handleGetBacklogSummary_st args2) (handleGetBacklogSummary j)"
    by (simp_all add: refines_handler)
  show "same_summary (handleGetBacklogSummary_st args1 h1) (handleGetBacklogSummary_st args2 h2)"
  proof (cases "handleGetBacklogSummary j")
    case (Inl e)
    with r1 r2 show ?thesis
      by (auto simp: refines_def same_summary_def split: prod.splits sum.splits)
  next
    case (Inr js)
    with r1 r2 show ?thesis
      by (auto simp: refines_def same_summary_def split: prod.splits sum.splits)
  qed
qed

theorem summary_deterministic_and_read_only_witness:
  "repr example_store (SRef 6) example_tree
 \<and> handleGetBacklogSummary_st (SRef 6) example_store =
     (Inr [TextJsonAt (SRef 9)],
      example_store @
        [CObj [(''id'', SStr ''EPIC-1''), (''title'', SStr ''Authentication''),
               (''story_count'', SNum 2), (''total_hours'', SNum 7)],
         CArr [SRef 7],
         CObj [(''project_name'', SStr ''Unknown''), (''total_epics'', SNum 1),
               (''total_stories'', SNum 2), (''total_estimated_hours'', SNum 7),
               (''epics_breakdown'', SRef 8)]])
 \<and> repr (snd (handleGetBacklogSummary_st (SRef 6) example_store)) (SRef 6) example_tree
 \<and> same_summary (handleGetBacklogSummary_st (SRef 6) example_store)
      (handleGetBacklogSummary_st (SRef 6) (snd (handleGetBacklogSummary_st (SRef 6) example_store)))
 \<and> take 7 (snd (handleGetBacklogSummary_st (SRef 6) example_store)) = example_store"
proof -
  have r1: "repr example_store (SRef 6) example_tree"
    by (simp add: example_store_def example_tree_def cell_at_def)
  have ev: "handleGetBacklogSummary_st (SRef 6) example_store =
     (Inr [TextJsonAt (SRef 9)],
      example_store @
        [CObj [(''id'', SStr ''EPIC-1''), (''title'', SStr ''Authentication''),
               (''story_count'', SNum 2), (''total_hours'', SNum 7)],
         CArr [SRef 7],
         CObj [(''project_name'', SStr ''Unknown''), (''total_epics'', SNum 1),
               (''total_stories'', SNum 2), (''total_estimated_hours'', SNum 7),
               (''epics_breakdown'', SRef 8)]])"
    by code_simp
  have p: "prefix example_store (snd (handleGetBacklogSummary_st (SRef 6) example_store))"
    using summary_deterministic_and_read_only [of example_store "SRef 6"] by simp
  from p r1 have r2: "repr (snd (handleGetBacklogSummary_st (SRef 6) example_store)) (SRef 6) example_tree"
    by (rule repr_mono)
  from p have t: "take 7 (snd (handleGetBacklogSummary_st (SRef 6) example_store)) = example_store"
    by (auto simp: prefix_def example_store_def)
  from r1 r2
    summary_deterministic_and_read_only
      [of _ _ example_store "SRef 6" example_tree
          "snd (handleGetBacklogSummary_st (SRef 6) example_store)" "SRef 6"]
  have same: "same_summary (handleGetBacklogSummary_st (SRef 6) example_store)
      (handleGetBacklogSummary_st (SRef 6) (snd (handleGetBacklogSummary_st (SRef 6) example_store)))"
    by simp
  from r1 ev r2 same t show ?thesis
    by blast
qed

end
